theory Spec2Isabelle
  imports Complex_Main "HOL-Library.Sublist"
begin

section \<open>Course catalog: normalisation, filtering and grouping\<close>

text \<open>
  A shallow embedding of \<^verbatim>\<open>src/CourseCatalog.jsx\<close>: the module-level normalisation
  (\<^verbatim>\<open>department\<close>, \<^verbatim>\<open>COURSES\<close>) and the two memoised computations of the component
  (\<^verbatim>\<open>filtered\<close>, \<^verbatim>\<open>grouped\<close>).

  Conventions of the embedding.
  \<^item> A JavaScript string is a \<^typ>\<open>string\<close>; a character outside ASCII is the sequence of
    its UTF-8 bytes. \<^verbatim>\<open>toLowerCase\<close> maps the letters A to Z and leaves every other
    byte alone; no theorem below depends on which letters it maps.
  \<^item> An optional property of a JSON record is an \<^typ>\<open>'a option\<close>: \<open>None\<close> stands for
    a property that is absent or \<^verbatim>\<open>null\<close>.
  \<^item> The properties \<^verbatim>\<open>code\<close>, \<^verbatim>\<open>name\<close>, \<^verbatim>\<open>subject\<close> and \<^verbatim>\<open>tracks\<close> are taken
    as present, with the types the code uses them at.
  \<^item> A \<^verbatim>\<open>TypeError\<close> thrown by the program is the value \<open>Inl TypeError\<close>.
\<close>

subsection \<open>JavaScript values and operators\<close>

datatype error = TypeError

text \<open>A JSON scalar, for the one property (\<^verbatim>\<open>credits\<close>) that is carried through untyped.\<close>

datatype jsval = JStr string | JNum rat

text \<open>The placeholder string of the source: one em dash (U+2014), as UTF-8.\<close>

definition EM_DASH :: string where
  "EM_DASH = [CHR 0xE2, CHR 0x80, CHR 0x94]"

text \<open>\<^verbatim>\<open>x || d\<close> on a string-valued property: absent, null and the empty string are falsy.\<close>

fun or_default :: "string option \<Rightarrow> string \<Rightarrow> string" where
  "or_default None d = d"
| "or_default (Some s) d = (if s = [] then d else s)"

text \<open>\<^verbatim>\<open>x ?? d\<close>: only absent and null give the default.\<close>

fun nullish_default :: "jsval option \<Rightarrow> jsval \<Rightarrow> jsval" where
  "nullish_default None d = d"
| "nullish_default (Some v) d = v"

text \<open>\<^verbatim>\<open>s.startsWith(p)\<close>.\<close>

fun startsWith :: "string \<Rightarrow> string \<Rightarrow> bool" where
  "startsWith s [] = True"
| "startsWith [] (p # ps) = False"
| "startsWith (c # cs) (p # ps) = (c = p \<and> startsWith cs ps)"

text \<open>\<^verbatim>\<open>s.includes(q)\<close> (\<open>includes\<close> is a keyword of Isabelle): \<open>q\<close> occurs in \<open>s\<close> at some position.\<close>

fun includes_js :: "string \<Rightarrow> string \<Rightarrow> bool" where
  "includes_js [] q = startsWith [] q"
| "includes_js (c # cs) q = (startsWith (c # cs) q \<or> includes_js cs q)"

definition char_toLowerCase :: "char \<Rightarrow> char" where
  "char_toLowerCase c =
     (let n = (of_char c :: nat) in if 65 \<le> n \<and> n \<le> 90 then char_of (n + 32) else c)"

definition toLowerCase :: "string \<Rightarrow> string" where
  "toLowerCase s = map char_toLowerCase s"

text \<open>\<^verbatim>\<open>xs.some(p)\<close>.\<close>

fun array_some :: "('a \<Rightarrow> bool) \<Rightarrow> 'a list \<Rightarrow> bool" where
  "array_some p [] = False"
| "array_some p (x # xs) = (p x \<or> array_some p xs)"

subsection \<open>Data normalisation\<close>

text \<open>An entry of \<^verbatim>\<open>courses.json\<close>.\<close>

record raw_course =
  raw_code :: string
  raw_name :: string
  raw_subject :: string
  raw_sub_subject :: "string option"
  raw_credits :: "jsval option"
  raw_duration :: "string option"
  raw_grades :: "int list option"
  raw_prerequisites :: "string option"
  raw_diploma_category :: "string option"
  raw_fees :: "string option"
  raw_notes :: "string option"
  raw_description :: "string option"
  raw_tracks :: "string list"

text \<open>
  An entry of \<^verbatim>\<open>COURSES\<close>. The fields \<^verbatim>\<open>id\<close>, \<^verbatim>\<open>length\<close>, \<^verbatim>\<open>notes\<close> and
  \<^verbatim>\<open>department\<close> carry the suffix \<open>_c\<close>. \<^verbatim>\<open>grades\<close> is copied from the raw record as it is, so it is still optional.
\<close>

record course =
  id_c :: string
  name :: string
  code :: string
  department_c :: string
  subject :: string
  tracks :: "string list"
  grades :: "int list option"
  length_c :: string
  credits :: jsval
  prerequisite :: string
  diploma :: string
  description :: string
  notes_c :: string
  fees :: string
  ap :: bool

definition department :: "raw_course \<Rightarrow> string" where
  "department c =
     (if raw_subject c = ''English'' then ''English''
      else or_default (raw_sub_subject c) (raw_subject c))"

definition normalize :: "raw_course \<Rightarrow> course" where
  "normalize c =
     \<lparr> id_c = raw_code c,
       name = raw_name c,
       code = raw_code c,
       department_c = department c,
       subject = raw_subject c,
       tracks = raw_tracks c,
       grades = raw_grades c,
       length_c = or_default (raw_duration c) EM_DASH,
       credits = nullish_default (raw_credits c) (JStr EM_DASH),
       prerequisite = or_default (raw_prerequisites c) ''None'',
       diploma = or_default (raw_diploma_category c) EM_DASH,
       description = or_default (raw_description c) '''',
       notes_c = or_default (raw_notes c) '''',
       fees = or_default (raw_fees c) '''',
       ap = startsWith (raw_name c) ''AP '' \<rparr>"

definition COURSES :: "raw_course list \<Rightarrow> course list" where
  "COURSES rawCourses = map normalize rawCourses"

subsection \<open>Filtering\<close>

text \<open>The four pieces of component state the filter reads, with their initial values.\<close>

record filter_state =
  selectedGrades :: "int set"
  selectedDept :: string
  searchQuery :: string
  apOnly :: bool

definition initial_state :: filter_state where
  "initial_state =
     \<lparr> selectedGrades = {9, 10, 11, 12}, selectedDept = ''All'',
       searchQuery = '''', apOnly = False \<rparr>"

text \<open>The expression returned when the query is not empty; \<open>q\<close> is the lower-cased query.\<close>

definition text_match :: "string \<Rightarrow> course \<Rightarrow> bool" where
  "text_match q c =
     (includes_js (toLowerCase (name c)) q \<or>
      includes_js (toLowerCase (code c)) q \<or>
      includes_js (toLowerCase (department_c c)) q \<or>
      includes_js (toLowerCase (description c)) q)"

text \<open>
  The callback given to \<^verbatim>\<open>COURSES.filter\<close>. Calling \<^verbatim>\<open>.some\<close> on an absent
  \<^verbatim>\<open>grades\<close> throws.
\<close>

definition filter_callback :: "filter_state \<Rightarrow> course \<Rightarrow> error + bool" where
  "filter_callback st c =
     (case grades c of
        None \<Rightarrow> Inl TypeError
      | Some gs \<Rightarrow>
          if \<not> array_some (\<lambda>g. g \<in> selectedGrades st) gs then Inr False
          else if selectedDept st \<noteq> ''All'' \<and> department_c c \<noteq> selectedDept st then Inr False
          else if apOnly st \<and> \<not> ap c then Inr False
          else if searchQuery st \<noteq> [] then Inr (text_match (toLowerCase (searchQuery st)) c)
          else Inr True)"

text \<open>\<^verbatim>\<open>Array.prototype.filter\<close>: the callback runs on each element in order, and the
  first exception ends the whole call.\<close>

fun filtered :: "filter_state \<Rightarrow> course list \<Rightarrow> error + course list" where
  "filtered st [] = Inr []"
| "filtered st (c # cs) =
     (case filter_callback st c of
        Inl e \<Rightarrow> Inl e
      | Inr keep \<Rightarrow>
          (case filtered st cs of
             Inl e \<Rightarrow> Inl e
           | Inr rest \<Rightarrow> Inr (if keep then c # rest else rest)))"

subsection \<open>Grouping\<close>

text \<open>
  \<^verbatim>\<open>grouped\<close> collects the courses in a plain object, \<^verbatim>\<open>const map = {}\<close>, whose keys
  are department names. The object is modelled by its own properties, in the order they
  were created, each holding an array of courses. A plain object also inherits from
  \<^verbatim>\<open>Object.prototype\<close>: reading \<^verbatim>\<open>map[k]\<close> for one of the names below, when the
  object has no own property \<open>k\<close>, gives the inherited member (a function, or for
  \<^verbatim>\<open>__proto__\<close> the prototype object), which is truthy and has no \<^verbatim>\<open>push\<close> method.
\<close>

definition Object_prototype_keys :: "string list" where
  "Object_prototype_keys =
     [''constructor'', ''__defineGetter__'', ''__defineSetter__'', ''hasOwnProperty'',
      ''__lookupGetter__'', ''__lookupSetter__'', ''isPrototypeOf'', ''propertyIsEnumerable'',
      ''toString'', ''valueOf'', ''__proto__'', ''toLocaleString'']"

type_synonym buckets = "(string \<times> course list) list"

datatype property = Undefined | Array "course list" | Inherited

text \<open>\<^verbatim>\<open>map[k]\<close>.\<close>

definition get_property :: "buckets \<Rightarrow> string \<Rightarrow> property" where
  "get_property m k =
     (case map_of m k of
        Some b \<Rightarrow> Array b
      | None \<Rightarrow> if k \<in> set Object_prototype_keys then Inherited else Undefined)"

text \<open>\<^verbatim>\<open>map[k].push(c)\<close> on an own property: the array grows in place, the key keeps its position.\<close>

definition push :: "buckets \<Rightarrow> string \<Rightarrow> course \<Rightarrow> buckets" where
  "push m k c = map (\<lambda>(k', b). if k' = k then (k', b @ [c]) else (k', b)) m"

text \<open>
  The body of the \<^verbatim>\<open>forEach\<close>: \<^verbatim>\<open>if (!map[k]) map[k] = []\<close> creates the property only
  when the read gives \<^verbatim>\<open>undefined\<close> (an array, even an empty one, is truthy, and so is an
  inherited member); \<^verbatim>\<open>map[k].push(c)\<close> then throws when the value read is not an array.
\<close>

definition forEach_callback :: "buckets \<Rightarrow> course \<Rightarrow> error + buckets" where
  "forEach_callback m c =
     (let k = department_c c;
          m1 = (if get_property m k = Undefined then m @ [(k, [])] else m)
      in case get_property m1 k of
           Array b \<Rightarrow> Inr (push m1 k c)
         | _ \<Rightarrow> Inl TypeError)"

fun forEach :: "buckets \<Rightarrow> course list \<Rightarrow> error + buckets" where
  "forEach m [] = Inr m"
| "forEach m (c # cs) =
     (case forEach_callback m c of Inl e \<Rightarrow> Inl e | Inr m' \<Rightarrow> forEach m' cs)"

text \<open>
  \<^verbatim>\<open>Object.entries(map)\<close> lists the keys that are array indices (the decimal numerals of
  0 to 2^32 - 2, without leading zeros) first, in increasing numeric order, and then the
  other keys in the order of their creation.
\<close>

definition is_digit :: "char \<Rightarrow> bool" where
  "is_digit c = (let n = (of_char c :: nat) in 48 \<le> n \<and> n \<le> 57)"

definition digits_value :: "string \<Rightarrow> int" where
  "digits_value k = foldl (\<lambda>n c. 10 * n + (of_char c - 48)) 0 k"

definition array_index :: "string \<Rightarrow> int option" where
  "array_index k =
     (if k \<noteq> [] \<and> list_all is_digit k \<and> (k = ''0'' \<or> hd k \<noteq> CHR ''0'') \<and>
         digits_value k < 4294967295
      then Some (digits_value k) else None)"

definition Object_entries :: "buckets \<Rightarrow> (string \<times> course list) list" where
  "Object_entries m =
     sort_key (\<lambda>(k, b). digits_value k) (filter (\<lambda>(k, b). array_index k \<noteq> None) m) @
     filter (\<lambda>(k, b). array_index k = None) m"

text \<open>
  \<^verbatim>\<open>Array.prototype.sort(cmp)\<close> is a stable sort: \<open>x\<close> goes before \<open>y\<close> when
  \<open>cmp x y < 0\<close>, and elements that compare equal keep their order. For a comparator that
  is a consistent ordering every stable sort returns the same array; this one is
  insertion sort.
\<close>

fun insert_sorted :: "('a \<Rightarrow> 'a \<Rightarrow> int) \<Rightarrow> 'a \<Rightarrow> 'a list \<Rightarrow> 'a list" where
  "insert_sorted cmp x [] = [x]"
| "insert_sorted cmp x (y # ys) =
     (if cmp x y \<le> 0 then x # y # ys else y # insert_sorted cmp x ys)"

definition array_sort :: "('a \<Rightarrow> 'a \<Rightarrow> int) \<Rightarrow> 'a list \<Rightarrow> 'a list" where
  "array_sort cmp xs = foldr (insert_sorted cmp) xs []"

text \<open>
  \<^verbatim>\<open>String.prototype.localeCompare\<close> is the collation of the host's locale; it is the
  parameter \<open>localeCompare\<close> of the model.
\<close>

definition grouped ::
  "(string \<Rightarrow> string \<Rightarrow> int) \<Rightarrow> course list \<Rightarrow> error + (string \<times> course list) list" where
  "grouped localeCompare flt =
     (case forEach [] flt of
        Inl e \<Rightarrow> Inl e
      | Inr m \<Rightarrow> Inr (array_sort (\<lambda>a b. localeCompare (fst a) (fst b)) (Object_entries m)))"

subsection \<open>The specification's wording\<close>

text \<open>The department rule of the data model, on the two raw fields it reads.\<close>

definition spec_department :: "string \<Rightarrow> string option \<Rightarrow> string" where
  "spec_department subj sub =
     (if subj = ''English'' then ''English''
      else case sub of
             Some s \<Rightarrow> if s \<noteq> [] then s else subj
           | None \<Rightarrow> subj)"

text \<open>The query, lower-cased, is a substring of one of the four searched fields, lower-cased.\<close>

definition spec_text_match :: "string \<Rightarrow> course \<Rightarrow> bool" where
  "spec_text_match query c =
     (\<exists>field \<in> set [name c, code c, department_c c, description c].
        sublist (toLowerCase query) (toLowerCase field))"

text \<open>The four inclusion conditions of the filter engine.\<close>

definition spec_included :: "filter_state \<Rightarrow> course \<Rightarrow> bool" where
  "spec_included st c =
     (set (case grades c of None \<Rightarrow> [] | Some gs \<Rightarrow> gs) \<inter> selectedGrades st \<noteq> {} \<and>
      (selectedDept st = ''All'' \<or> department_c c = selectedDept st) \<and>
      (apOnly st = False \<or> ap c = True) \<and>
      (searchQuery st = [] \<or> spec_text_match (searchQuery st) c))"

subsection \<open>A small catalog\<close>

definition raw_ap_biology :: raw_course where
  "raw_ap_biology =
     \<lparr> raw_code = ''SCI450'', raw_name = ''AP Biology'', raw_subject = ''Science'',
       raw_sub_subject = None, raw_credits = Some (JNum 1), raw_duration = Some ''Year'',
       raw_grades = Some [11, 12], raw_prerequisites = Some ''Chemistry'',
       raw_diploma_category = Some ''Science'', raw_fees = None, raw_notes = None,
       raw_description = Some ''College-level study of living systems.'',
       raw_tracks = [''AP''] \<rparr>"

definition raw_applied_math :: raw_course where
  "raw_applied_math =
     raw_ap_biology
       \<lparr> raw_code := ''CTE210'', raw_name := ''APPLIED Math'', raw_subject := ''CTE'',
         raw_sub_subject := Some ''Business & Marketing'', raw_grades := Some [9, 10],
         raw_prerequisites := None, raw_description := None, raw_tracks := [] \<rparr>"

definition raw_seminar :: raw_course where
  "raw_seminar =
     raw_ap_biology
       \<lparr> raw_code := ''ENG105'', raw_name := ''Writing Seminar'', raw_subject := ''English'',
         raw_sub_subject := Some ''English 9'', raw_grades := Some [9],
         raw_description := Some ''Reports for the Biology Club newsletter.'',
         raw_tracks := [] \<rparr>"

definition rawCourses_example :: "raw_course list" where
  "rawCourses_example = [raw_ap_biology, raw_applied_math, raw_seminar]"

definition raw_empty_grades :: raw_course where
  "raw_empty_grades = raw_ap_biology \<lparr> raw_grades := Some [] \<rparr>"

definition raw_absent_grades :: raw_course where
  "raw_absent_grades = raw_ap_biology \<lparr> raw_grades := None \<rparr>"

definition raw_constructor :: raw_course where
  "raw_constructor =
     raw_ap_biology
       \<lparr> raw_code := ''CTE330'', raw_name := ''Site Management'',
         raw_subject := ''constructor'', raw_tracks := [] \<rparr>"

definition state_bio :: filter_state where
  "state_bio = initial_state \<lparr> searchQuery := ''Bio'' \<rparr>"

section \<open>Properties\<close>

subsection \<open>Operators\<close>

lemma startsWith_prefix: "startsWith s p \<longleftrightarrow> prefix p s"
  by (induction s p rule: startsWith.induct) auto

lemma includes_sublist: "includes_js s q \<longleftrightarrow> sublist q s"
  by (induction s) (auto simp: startsWith_prefix sublist_Cons_right)

lemma array_some_iff: "array_some p xs \<longleftrightarrow> (\<exists>x\<in>set xs. p x)"
  by (induction xs) auto

subsection \<open>Normalisation\<close>

text \<open>
  Claim C5. The derived department of a raw record is \<open>''English''\<close> when its subject is
  \<open>''English''\<close>, whatever the sub-subject; otherwise it is the sub-subject when that is
  present and not empty, and the subject otherwise. The canonical course carries exactly
  this value.
\<close>

theorem department_rule:
  "department r = spec_department (raw_subject r) (raw_sub_subject r) \<and>
   department_c (normalize r) = department r \<and>
   (raw_subject r = ''English'' \<longrightarrow> department r = ''English'')"
  by (cases "raw_sub_subject r") (simp_all add: department_def spec_department_def normalize_def)

theorem department_rule_witness:
  "raw_subject raw_seminar = ''English'' \<and> raw_sub_subject raw_seminar = Some ''English 9'' \<and>
   department raw_seminar = ''English'' \<and>
   department_c (normalize raw_applied_math) = ''Business & Marketing'' \<and>
   department_c (normalize raw_ap_biology) = ''Science''"
  using department_rule [of raw_seminar] department_rule [of raw_applied_math]
    department_rule [of raw_ap_biology]
  by (simp add: raw_seminar_def raw_applied_math_def raw_ap_biology_def spec_department_def)

text \<open>
  Claim C6. The \<open>ap\<close> flag of the canonical course is true exactly when the record's name
  starts with the three characters \<open>''AP ''\<close>, compared as they are: the name is
  \<open>''AP ''\<close> followed by some rest. \<open>''AP Biology''\<close> gives true and \<open>''APPLIED Math''\<close>
  gives false.
\<close>

theorem ap_prefix:
  "(ap (normalize r) \<longleftrightarrow> (\<exists>rest. raw_name r = ''AP '' @ rest)) \<and>
   (ap (normalize r) \<longleftrightarrow> take 3 (raw_name r) = ''AP '') \<and>
   ap (normalize (r\<lparr>raw_name := ''AP Biology''\<rparr>)) \<and>
   \<not> ap (normalize (r\<lparr>raw_name := ''APPLIED Math''\<rparr>))"
proof -
  have "prefix ''AP '' s \<longleftrightarrow> take 3 s = ''AP ''" for s :: string
    by (metis length_Cons list.size(3) numeral_3_eq_3 prefix_def take_is_prefix
        append_eq_conv_conj)
  then show ?thesis
    by (simp add: normalize_def startsWith_prefix) (simp add: prefix_def)
qed

theorem ap_prefix_witness:
  "ap (normalize raw_ap_biology) \<and> \<not> ap (normalize raw_applied_math)"
  using ap_prefix [of raw_ap_biology] ap_prefix [of raw_applied_math]
  by (simp add: raw_ap_biology_def raw_applied_math_def)

text \<open>
  Claim C9. Normalising a record whose optional fields are absent gives the same
  canonical course as normalising it with the default values written out: duration,
  credits and diploma category an em dash, prerequisites \<open>''None''\<close>, and description,
  notes and fees the empty string.
\<close>

theorem normalize_defaults:
  "normalize
     (r\<lparr>raw_duration := None, raw_credits := None, raw_prerequisites := None,
        raw_diploma_category := None, raw_description := None, raw_notes := None,
        raw_fees := None\<rparr>) =
   normalize
     (r\<lparr>raw_duration := Some EM_DASH, raw_credits := Some (JStr EM_DASH),
        raw_prerequisites := Some ''None'', raw_diploma_category := Some EM_DASH,
        raw_description := Some '''', raw_notes := Some '''', raw_fees := Some ''''\<rparr>)"
  by (simp add: normalize_def department_def EM_DASH_def)

theorem normalize_defaults_witness:
  "length_c (normalize (raw_ap_biology\<lparr>raw_duration := Some EM_DASH,
       raw_credits := Some (JStr EM_DASH), raw_prerequisites := Some ''None'',
       raw_diploma_category := Some EM_DASH, raw_description := Some '''',
       raw_notes := Some '''', raw_fees := Some ''''\<rparr>)) = EM_DASH \<and>
   prerequisite (normalize (raw_ap_biology\<lparr>raw_duration := Some EM_DASH,
       raw_credits := Some (JStr EM_DASH), raw_prerequisites := Some ''None'',
       raw_diploma_category := Some EM_DASH, raw_description := Some '''',
       raw_notes := Some '''', raw_fees := Some ''''\<rparr>)) = ''None''"
  unfolding normalize_defaults [of raw_ap_biology, symmetric]
  by (simp add: normalize_def)

subsection \<open>The filter callback and the specification's conditions\<close>

lemma text_match_sublist: "text_match (toLowerCase query) c \<longleftrightarrow> spec_text_match query c"
  by (simp add: text_match_def spec_text_match_def includes_sublist)

lemma filter_callback_present:
  "grades c = Some gs \<Longrightarrow> filter_callback st c = Inr (spec_included st c)"
  by (auto simp: filter_callback_def spec_included_def array_some_iff text_match_sublist)

lemma filter_callback_absent: "grades c = None \<Longrightarrow> filter_callback st c = Inl TypeError"
  by (simp add: filter_callback_def)

lemma filtered_present:
  "\<forall>c\<in>set cs. grades c \<noteq> None \<Longrightarrow> filtered st cs = Inr (filter (spec_included st) cs)"
proof (induction cs)
  case Nil
  then show ?case by simp
next
  case (Cons c cs)
  then obtain gs where "grades c = Some gs" by auto
  with Cons show ?case by (simp add: filter_callback_present)
qed

lemma filtered_Inr_member:
  "filtered st cs = Inr res \<Longrightarrow> c \<in> set res \<Longrightarrow> filter_callback st c = Inr True"
proof (induction cs arbitrary: res)
  case Nil
  then show ?case by simp
next
  case (Cons a cs)
  then show ?case
    by (auto split: sum.splits if_splits)
qed

lemma spec_included_mono:
  "S \<subseteq> S' \<Longrightarrow> spec_included (st\<lparr>selectedGrades := S\<rparr>) c \<Longrightarrow>
   spec_included (st\<lparr>selectedGrades := S'\<rparr>) c"
  by (auto simp: spec_included_def)

lemma example_grades_present: "\<forall>c\<in>set (COURSES rawCourses_example). grades c \<noteq> None"
  by (simp add: COURSES_def rawCourses_example_def normalize_def raw_ap_biology_def
      raw_applied_math_def raw_seminar_def)

subsection \<open>The filter\<close>

text \<open>
  Claim C1. On a list of canonical courses (every course has its \<open>grades\<close>), the filter
  returns exactly the courses that satisfy the four conditions of the specification:
  the grades meet the selected grades, the department is selected or the selection is
  \<open>''All''\<close>, the course is an AP course or \<open>apOnly\<close> is off, and the query is empty or
  the text match holds. The result keeps the order of the input: it is a subsequence.
\<close>

theorem filtered_spec:
  assumes "\<forall>c\<in>set cs. grades c \<noteq> None"
  shows "filtered st cs = Inr (filter (spec_included st) cs) \<and>
         subseq (filter (spec_included st) cs) cs"
  using assms by (simp add: filtered_present)

theorem filtered_spec_witness:
  "filtered state_bio (COURSES rawCourses_example) =
     Inr (filter (spec_included state_bio) (COURSES rawCourses_example)) \<and>
   map name (filter (spec_included state_bio) (COURSES rawCourses_example)) =
     [''AP Biology'', ''Writing Seminar'']"
proof -
  have "map name (filter (spec_included state_bio) (COURSES rawCourses_example)) =
     [''AP Biology'', ''Writing Seminar'']"
    by code_simp
  with filtered_spec [OF example_grades_present, of state_bio] show ?thesis
    by simp
qed

text \<open>
  Claim C2. For a query that is not empty, the text match of the filter holds exactly when
  the lower-cased query is a substring of the lower-cased \<open>name\<close>, \<open>code\<close>,
  \<open>department\<close> or \<open>description\<close> of the course. It reads no other field: two courses
  that agree on these four get the same answer. For a course that passes the grade,
  department and AP checks, it is what the filter callback returns.
\<close>

theorem text_match_any_field:
  assumes "searchQuery st \<noteq> []"
  shows "(text_match (toLowerCase (searchQuery st)) c \<longleftrightarrow>
            sublist (toLowerCase (searchQuery st)) (toLowerCase (name c)) \<or>
            sublist (toLowerCase (searchQuery st)) (toLowerCase (code c)) \<or>
            sublist (toLowerCase (searchQuery st)) (toLowerCase (department_c c)) \<or>
            sublist (toLowerCase (searchQuery st)) (toLowerCase (description c))) \<and>
         (\<forall>c'. name c' = name c \<and> code c' = code c \<and> department_c c' = department_c c \<and>
               description c' = description c \<longrightarrow>
               text_match (toLowerCase (searchQuery st)) c' =
               text_match (toLowerCase (searchQuery st)) c) \<and>
         (\<forall>gs. grades c = Some gs \<and> set gs \<inter> selectedGrades st \<noteq> {} \<and>
               (selectedDept st = ''All'' \<or> department_c c = selectedDept st) \<and>
               (apOnly st \<longrightarrow> ap c) \<longrightarrow>
               filter_callback st c = Inr (text_match (toLowerCase (searchQuery st)) c))"
proof (intro conjI allI impI)
  show "text_match (toLowerCase (searchQuery st)) c \<longleftrightarrow>
            sublist (toLowerCase (searchQuery st)) (toLowerCase (name c)) \<or>
            sublist (toLowerCase (searchQuery st)) (toLowerCase (code c)) \<or>
            sublist (toLowerCase (searchQuery st)) (toLowerCase (department_c c)) \<or>
            sublist (toLowerCase (searchQuery st)) (toLowerCase (description c))"
    by (simp add: text_match_def includes_sublist)
next
  fix c' :: course
  assume "name c' = name c \<and> code c' = code c \<and> department_c c' = department_c c \<and>
          description c' = description c"
  then show "text_match (toLowerCase (searchQuery st)) c' =
             text_match (toLowerCase (searchQuery st)) c"
    by (simp add: text_match_def)
next
  fix gs
  assume "grades c = Some gs \<and> set gs \<inter> selectedGrades st \<noteq> {} \<and>
          (selectedDept st = ''All'' \<or> department_c c = selectedDept st) \<and>
          (apOnly st \<longrightarrow> ap c)"
  with assms show "filter_callback st c = Inr (text_match (toLowerCase (searchQuery st)) c)"
    by (auto simp: filter_callback_def array_some_iff)
qed

theorem text_match_any_field_witness:
  "searchQuery state_bio = ''Bio'' \<and>
   text_match (toLowerCase (searchQuery state_bio)) (normalize raw_ap_biology) \<and>
   sublist ''bio'' (toLowerCase (name (normalize raw_ap_biology))) \<and>
   text_match (toLowerCase (searchQuery state_bio)) (normalize raw_seminar) \<and>
   sublist ''bio'' (toLowerCase (description (normalize raw_seminar))) \<and>
   \<not> text_match (toLowerCase (searchQuery state_bio)) (normalize raw_applied_math)"
proof -
  have q: "searchQuery state_bio \<noteq> []" "searchQuery state_bio = ''Bio''"
    by (simp_all add: state_bio_def)
  have lq: "toLowerCase (searchQuery state_bio) = ''bio''"
    by code_simp
  have "sublist ''bio'' (toLowerCase (name (normalize raw_ap_biology)))"
    and "sublist ''bio'' (toLowerCase (description (normalize raw_seminar)))"
    and "\<not> sublist ''bio'' (toLowerCase (name (normalize raw_applied_math)))"
    and "\<not> sublist ''bio'' (toLowerCase (code (normalize raw_applied_math)))"
    and "\<not> sublist ''bio'' (toLowerCase (department_c (normalize raw_applied_math)))"
    and "\<not> sublist ''bio'' (toLowerCase (description (normalize raw_applied_math)))"
    by code_simp+
  with q lq text_match_any_field [OF q(1), of "normalize raw_ap_biology"]
    text_match_any_field [OF q(1), of "normalize raw_seminar"]
    text_match_any_field [OF q(1), of "normalize raw_applied_math"]
  show ?thesis by simp
qed

text \<open>
  Claim C7. On a list of canonical courses, when no grade is selected the filter returns
  the empty list, whatever the department selection, the query and the AP switch.
\<close>

theorem filtered_no_grades_selected:
  assumes "\<forall>c\<in>set cs. grades c \<noteq> None" and "selectedGrades st = {}"
  shows "filtered st cs = Inr []"
  using assms by (simp add: filtered_present spec_included_def)

theorem filtered_no_grades_selected_witness:
  "filtered (state_bio\<lparr>selectedGrades := {}\<rparr>) (COURSES rawCourses_example) = Inr [] \<and>
   filtered (initial_state\<lparr>selectedGrades := {}\<rparr>) (COURSES rawCourses_example) = Inr []"
  using filtered_no_grades_selected [OF example_grades_present,
      of "state_bio\<lparr>selectedGrades := {}\<rparr>"]
    filtered_no_grades_selected [OF example_grades_present,
      of "initial_state\<lparr>selectedGrades := {}\<rparr>"]
  by simp

text \<open>
  Claim C8. When every course has a non-empty list of grades taken from 9, 10, 11 and 12,
  the filter in the initial state (all four grades selected, department \<open>''All''\<close>, empty
  query, AP switch off) returns the whole list, unchanged.
\<close>

theorem filtered_initial_state:
  assumes "\<forall>c\<in>set cs. \<exists>gs. grades c = Some gs \<and> gs \<noteq> [] \<and> set gs \<subseteq> {9, 10, 11, 12}"
  shows "filtered initial_state cs = Inr cs"
proof -
  have "spec_included initial_state c" if "c \<in> set cs" for c
  proof -
    from assms that obtain gs
      where g: "grades c = Some gs" "gs \<noteq> []" "set gs \<subseteq> {9, 10, 11, 12}"
      by blast
    then obtain x where "x \<in> set gs" by (cases gs) auto
    with g show ?thesis by (auto simp: spec_included_def initial_state_def)
  qed
  then have "filter (spec_included initial_state) cs = cs" by (simp add: filter_id_conv)
  moreover from assms have "\<forall>c\<in>set cs. grades c \<noteq> None" by auto
  ultimately show ?thesis by (simp add: filtered_present)
qed

theorem filtered_initial_state_witness:
  "filtered initial_state (COURSES rawCourses_example) = Inr (COURSES rawCourses_example) \<and>
   map grades (COURSES rawCourses_example) = [Some [11, 12], Some [9, 10], Some [9]]"
proof -
  have "\<forall>c\<in>set (COURSES rawCourses_example).
          \<exists>gs. grades c = Some gs \<and> gs \<noteq> [] \<and> set gs \<subseteq> {9, 10, 11, 12}"
    by (simp add: COURSES_def rawCourses_example_def normalize_def raw_ap_biology_def
        raw_applied_math_def raw_seminar_def)
  from filtered_initial_state [OF this] show ?thesis
    by (simp add: COURSES_def rawCourses_example_def normalize_def raw_ap_biology_def
        raw_applied_math_def raw_seminar_def)
qed

text \<open>
  Claim C10. The filter is monotone in the grade selection. For grade sets \<open>S \<subseteq> S'\<close> and
  the other state fields equal, a course the callback keeps with \<open>S\<close> it also keeps with
  \<open>S'\<close>; on a list of canonical courses both calls return, and the result for \<open>S\<close> is a
  subsequence of the result for \<open>S'\<close>.
\<close>

theorem filtered_mono_grades:
  assumes "S \<subseteq> S'" and "\<forall>c\<in>set cs. grades c \<noteq> None"
  shows "\<exists>r r'. filtered (st\<lparr>selectedGrades := S\<rparr>) cs = Inr r \<and>
                filtered (st\<lparr>selectedGrades := S'\<rparr>) cs = Inr r' \<and>
                subseq r r' \<and> set r \<subseteq> set r' \<and>
                (\<forall>c. filter_callback (st\<lparr>selectedGrades := S\<rparr>) c = Inr True \<longrightarrow>
                     filter_callback (st\<lparr>selectedGrades := S'\<rparr>) c = Inr True)"
proof -
  let ?P = "spec_included (st\<lparr>selectedGrades := S\<rparr>)"
  let ?P' = "spec_included (st\<lparr>selectedGrades := S'\<rparr>)"
  have imp: "?P c \<Longrightarrow> ?P' c" for c
    using assms(1) by (rule spec_included_mono)
  have "filter ?P cs = filter ?P (filter ?P' cs)"
    using imp by (auto intro: filter_cong)
  then have sub: "subseq (filter ?P cs) (filter ?P' cs)"
    by (metis subseq_filter_left)
  have incl: "set (filter ?P cs) \<subseteq> set (filter ?P' cs)"
    using imp by auto
  have "filter_callback (st\<lparr>selectedGrades := S'\<rparr>) c = Inr True"
    if "filter_callback (st\<lparr>selectedGrades := S\<rparr>) c = Inr True" for c
  proof (cases "grades c")
    case None
    with that show ?thesis by (simp add: filter_callback_absent)
  next
    case (Some gs)
    with that imp [of c] show ?thesis by (simp add: filter_callback_present)
  qed
  with sub incl assms(2) show ?thesis by (simp add: filtered_present)
qed

theorem filtered_mono_grades_witness:
  "map name (projr (filtered (initial_state\<lparr>selectedGrades := {10}\<rparr>)
       (COURSES rawCourses_example))) = [''APPLIED Math''] \<and>
   map name (projr (filtered (initial_state\<lparr>selectedGrades := {9, 10}\<rparr>)
       (COURSES rawCourses_example))) = [''APPLIED Math'', ''Writing Seminar''] \<and>
   subseq (projr (filtered (initial_state\<lparr>selectedGrades := {10}\<rparr>)
       (COURSES rawCourses_example)))
     (projr (filtered (initial_state\<lparr>selectedGrades := {9, 10}\<rparr>)
       (COURSES rawCourses_example)))"
proof -
  have s: "{10} \<subseteq> {9, 10 :: int}" by simp
  have "map name (projr (filtered (initial_state\<lparr>selectedGrades := {10}\<rparr>)
       (COURSES rawCourses_example))) = [''APPLIED Math'']"
    and "map name (projr (filtered (initial_state\<lparr>selectedGrades := {9, 10}\<rparr>)
       (COURSES rawCourses_example))) = [''APPLIED Math'', ''Writing Seminar'']"
    by code_simp+
  with filtered_mono_grades [OF s example_grades_present, of initial_state]
  show ?thesis by auto
qed

text \<open>
  Claim C4, as amended. A raw record whose \<open>grades\<close> is present and empty is excluded by
  the filter in every filter state, and the callback raises no error on it: it returns
  false at the grade check. No result of the filter contains the record's course.
\<close>

theorem empty_grades_excluded:
  assumes "raw_grades r = Some []"
  shows "filter_callback st (normalize r) = Inr False \<and>
         (\<forall>rs res. filtered st (COURSES rs) = Inr res \<longrightarrow> normalize r \<notin> set res)"
proof -
  from assms have "filter_callback st (normalize r) = Inr False"
    by (simp add: filter_callback_def normalize_def)
  then show ?thesis
    using filtered_Inr_member [of st _ _ "normalize r"] by auto
qed

theorem empty_grades_excluded_witness:
  "raw_grades raw_empty_grades = Some [] \<and>
   filter_callback initial_state (normalize raw_empty_grades) = Inr False \<and>
   filtered initial_state (COURSES [raw_seminar, raw_empty_grades]) =
     Inr [normalize raw_seminar]"
proof -
  have e: "raw_grades raw_empty_grades = Some []"
    by (simp add: raw_empty_grades_def)
  have "filter_callback initial_state (normalize raw_seminar) = Inr True"
    by (simp add: filter_callback_def initial_state_def normalize_def raw_seminar_def)
  with e empty_grades_excluded [OF e, of initial_state] show ?thesis
    by (simp add: COURSES_def)
qed

text \<open>
  Claim C4 as written also covers a record whose \<open>grades\<close> is absent. The normaliser
  copies the absent value, and the filter throws at the grade check of that course.
\<close>

theorem absent_grades_counterexample:
  "filtered initial_state (COURSES [raw_seminar, raw_absent_grades]) = Inl TypeError"
  by (simp add: COURSES_def filter_callback_def initial_state_def normalize_def
      raw_seminar_def raw_absent_grades_def)

subsection \<open>Grouping\<close>

text \<open>
  Claim C3 fails for a department whose name is a property of \<open>Object.prototype\<close>. A
  record with subject \<open>''constructor''\<close> passes the filter in the initial state, and the
  grouping of the filtered list throws: the read \<open>map[''constructor'']\<close> gives the
  inherited function, so no bucket is created and \<open>push\<close> is not a function. This holds
  for every comparison function.
\<close>

theorem grouped_prototype_key:
  "filtered initial_state (COURSES [raw_constructor]) = Inr (COURSES [raw_constructor]) \<and>
   department_c (normalize raw_constructor) = ''constructor'' \<and>
   grouped localeCompare (COURSES [raw_constructor]) = Inl TypeError"
  by (simp add: COURSES_def filter_callback_def initial_state_def normalize_def
      raw_constructor_def raw_ap_biology_def department_def grouped_def
      forEach_callback_def get_property_def Object_prototype_keys_def)

text \<open>
  For departments that are not names of \<open>Object.prototype\<close> members the grouping does
  return, and the result has the shape the specification describes. The lemmas below
  establish this: the callback never throws, the buckets hold the courses of each
  department in their order in the input, and the pairs are sorted by the comparison
  function.
\<close>

lemma map_fst_push: "map fst (push m k c) = map fst m"
  by (induction m) (auto simp: push_def)

lemma map_of_push:
  "map_of (push m k c) d = (if d = k then map_option (\<lambda>b. b @ [c]) (map_of m k) else map_of m d)"
  by (induction m) (auto simp: push_def)

lemma push_absent: "map_of m k = None \<Longrightarrow> push m k c = m"
  by (induction m) (auto simp: push_def split: if_splits)

lemma forEach_callback_returns:
  assumes "department_c c \<notin> set Object_prototype_keys"
  shows "forEach_callback m c =
           Inr (case map_of m (department_c c) of
                  None \<Rightarrow> m @ [(department_c c, [c])]
                | Some b \<Rightarrow> push m (department_c c) c)"
proof (cases "map_of m (department_c c)")
  case None
  with assms show ?thesis
    by (simp add: forEach_callback_def get_property_def Let_def push_def map_add_def
        push_absent [unfolded push_def])
next
  case (Some b)
  then show ?thesis
    by (simp add: forEach_callback_def get_property_def Let_def)
qed

lemma forEach_returns:
  assumes "\<forall>c\<in>set cs. department_c c \<notin> set Object_prototype_keys"
    and "distinct (map fst m)"
  shows "\<exists>m'. forEach m cs = Inr m' \<and> distinct (map fst m') \<and>
           (\<forall>d. map_of m' d =
              (case map_of m d of
                 Some b \<Rightarrow> Some (b @ filter (\<lambda>c. department_c c = d) cs)
               | None \<Rightarrow>
                   if d \<in> department_c ` set cs
                   then Some (filter (\<lambda>c. department_c c = d) cs) else None))"
  using assms
proof (induction cs arbitrary: m)
  case Nil
  then show ?case by (auto split: option.splits)
next
  case (Cons c cs)
  let ?k = "department_c c"
  let ?m1 = "case map_of m ?k of None \<Rightarrow> m @ [(?k, [c])] | Some b \<Rightarrow> push m ?k c"
  from Cons.prems have step: "forEach_callback m c = Inr ?m1"
    by (simp add: forEach_callback_returns)
  have d1: "distinct (map fst ?m1)"
    using Cons.prems(2)
    by (auto simp: map_fst_push map_of_eq_None_iff split: option.splits)
  have look: "map_of ?m1 d =
      (if d = ?k then Some (case map_of m ?k of None \<Rightarrow> [c] | Some b \<Rightarrow> b @ [c])
       else map_of m d)" for d
    by (auto simp: map_of_push map_add_def split: option.splits)
  from Cons.prems have "\<forall>c\<in>set cs. department_c c \<notin> set Object_prototype_keys"
    by simp
  from Cons.IH [OF this d1] obtain m' where
    m': "forEach ?m1 cs = Inr m'" "distinct (map fst m')"
    "\<And>d. map_of m' d =
        (case map_of ?m1 d of
           Some b \<Rightarrow> Some (b @ filter (\<lambda>c. department_c c = d) cs)
         | None \<Rightarrow>
             if d \<in> department_c ` set cs
             then Some (filter (\<lambda>c. department_c c = d) cs) else None)"
    by blast
  have "forEach m (c # cs) = Inr m'"
    using step m'(1) by simp
  moreover have "map_of m' d =
      (case map_of m d of
         Some b \<Rightarrow> Some (b @ filter (\<lambda>x. department_c x = d) (c # cs))
       | None \<Rightarrow>
           if d \<in> department_c ` set (c # cs)
           then Some (filter (\<lambda>x. department_c x = d) (c # cs)) else None)" for d
    unfolding m'(3) [of d] look [of d]
    by (auto split: option.splits)
  ultimately show ?case
    using m'(2) by blast
qed

lemma set_Object_entries: "set (Object_entries m) = set m"
  by (auto simp: Object_entries_def)

lemma distinct_Object_entries: "distinct m \<Longrightarrow> distinct (Object_entries m)"
  by (auto simp: Object_entries_def)

lemma set_insert_sorted: "set (insert_sorted cmp x xs) = insert x (set xs)"
  by (induction xs) auto

lemma distinct_insert_sorted:
  "distinct (insert_sorted cmp x xs) \<longleftrightarrow> x \<notin> set xs \<and> distinct xs"
  by (induction xs) (auto simp: set_insert_sorted)

lemma set_array_sort: "set (array_sort cmp xs) = set xs"
  by (induction xs) (auto simp: array_sort_def set_insert_sorted)

lemma distinct_array_sort: "distinct (array_sort cmp xs) \<longleftrightarrow> distinct xs"
  by (induction xs)
    (auto simp: array_sort_def distinct_insert_sorted set_array_sort [unfolded array_sort_def])

lemma sorted_insert_sorted:
  assumes total: "\<And>a b. cmp a b \<le> 0 \<or> cmp b a \<le> 0"
    and trans: "\<And>a b c. cmp a b \<le> 0 \<Longrightarrow> cmp b c \<le> 0 \<Longrightarrow> cmp a c \<le> 0"
    and "sorted_wrt (\<lambda>a b. cmp a b \<le> 0) xs"
  shows "sorted_wrt (\<lambda>a b. cmp a b \<le> (0::int)) (insert_sorted cmp x xs)"
  using assms(3)
proof (induction xs)
  case Nil
  then show ?case by simp
next
  case (Cons y ys)
  show ?case
  proof (cases "cmp x y \<le> 0")
    case True
    with Cons.prems trans show ?thesis by auto
  next
    case False
    with total [of x y] have "cmp y x \<le> 0" by simp
    with False Cons show ?thesis by (auto simp: set_insert_sorted)
  qed
qed

lemma sorted_array_sort:
  assumes "\<And>a b. cmp a b \<le> 0 \<or> cmp b a \<le> 0"
    and "\<And>a b c. cmp a b \<le> 0 \<Longrightarrow> cmp b c \<le> 0 \<Longrightarrow> cmp a c \<le> 0"
  shows "sorted_wrt (\<lambda>a b. cmp a b \<le> (0::int)) (array_sort cmp xs)"
proof (induction xs)
  case Nil
  then show ?case by (simp add: array_sort_def)
next
  case (Cons x xs)
  from sorted_insert_sorted [of cmp, OF assms Cons] show ?case
    by (simp add: array_sort_def)
qed

lemma grouped_empty: "grouped localeCompare [] = Inr []"
  by (simp add: grouped_def Object_entries_def array_sort_def)

lemma grouped_partition:
  assumes "\<forall>c\<in>set cs. department_c c \<notin> set Object_prototype_keys"
  shows "\<exists>gs. grouped localeCompare cs = Inr gs \<and> distinct (map fst gs) \<and>
           set gs = (\<lambda>d. (d, filter (\<lambda>c. department_c c = d) cs)) ` department_c ` set cs"
proof -
  from forEach_returns [OF assms, of "[]"] obtain m where
    m: "forEach [] cs = Inr m" "distinct (map fst m)"
    "\<And>d. map_of m d =
        (if d \<in> department_c ` set cs
         then Some (filter (\<lambda>c. department_c c = d) cs) else None)"
    by auto
  let ?gs = "array_sort (\<lambda>a b. localeCompare (fst a) (fst b)) (Object_entries m)"
  have g: "grouped localeCompare cs = Inr ?gs"
    by (simp add: grouped_def m(1))
  have s: "set ?gs = set m"
    by (simp add: set_array_sort set_Object_entries)
  from m(2) have "distinct m" and inj: "inj_on fst (set m)"
    by (simp_all add: distinct_map)
  then have "distinct ?gs"
    by (simp add: distinct_array_sort distinct_Object_entries)
  with inj s have d: "distinct (map fst ?gs)"
    by (simp add: distinct_map)
  have "set m = (\<lambda>d. (d, filter (\<lambda>c. department_c c = d) cs)) ` department_c ` set cs"
  proof (intro set_eqI iffI)
    fix p
    assume "p \<in> set m"
    then have "map_of m (fst p) = Some (snd p)"
      using m(2) by simp
    then show "p \<in> (\<lambda>d. (d, filter (\<lambda>c. department_c c = d) cs)) ` department_c ` set cs"
      unfolding m(3) by (cases p) (auto split: if_splits)
  next
    fix p
    assume "p \<in> (\<lambda>d. (d, filter (\<lambda>c. department_c c = d) cs)) ` department_c ` set cs"
    then obtain d where "d \<in> department_c ` set cs"
      and "p = (d, filter (\<lambda>c. department_c c = d) cs)"
      by blast
    with m(3) [of d] show "p \<in> set m"
      by (simp add: map_of_SomeD)
  qed
  with g s d show ?thesis by simp
qed

lemma grouped_sorted:
  assumes "\<And>a b. localeCompare a b \<le> 0 \<or> localeCompare b a \<le> 0"
    and "\<And>a b c. localeCompare a b \<le> 0 \<Longrightarrow> localeCompare b c \<le> 0 \<Longrightarrow> localeCompare a c \<le> 0"
    and "grouped localeCompare cs = Inr gs"
  shows "sorted_wrt (\<lambda>a b. localeCompare (fst a) (fst b) \<le> 0) gs"
proof -
  from assms(3) obtain m where
    "gs = array_sort (\<lambda>a b. localeCompare (fst a) (fst b)) (Object_entries m)"
    by (auto simp: grouped_def split: sum.splits)
  moreover have "sorted_wrt (\<lambda>a b. localeCompare (fst a) (fst b) \<le> 0)
      (array_sort (\<lambda>a b. localeCompare (fst a) (fst b)) (Object_entries m))"
    by (rule sorted_array_sort) (use assms(1,2) in blast)+
  ultimately show ?thesis by simp
qed

lemma forEach_callback_lookup:
  assumes "department_c c \<notin> set Object_prototype_keys"
    and "forEach_callback m c = Inr m1"
  shows "map_of m1 d =
      (if d = department_c c
       then Some (case map_of m (department_c c) of None \<Rightarrow> [c] | Some b \<Rightarrow> b @ [c])
       else map_of m d)"
  using assms(2) unfolding forEach_callback_returns [OF assms(1)]
  by (auto simp: map_of_push map_add_def split: option.splits)

lemma forEach_throws:
  assumes "\<exists>c\<in>set cs. department_c c \<in> set Object_prototype_keys"
    and "\<forall>k\<in>set Object_prototype_keys. map_of m k = None"
  shows "forEach m cs = Inl TypeError"
  using assms
proof (induction cs arbitrary: m)
  case Nil
  then show ?case by simp
next
  case (Cons c cs)
  show ?case
  proof (cases "department_c c \<in> set Object_prototype_keys")
    case True
    with Cons.prems(2) have "forEach_callback m c = Inl TypeError"
      by (simp add: forEach_callback_def get_property_def Let_def)
    then show ?thesis by simp
  next
    case False
    then obtain m1 where m1: "forEach_callback m c = Inr m1"
      by (simp add: forEach_callback_returns)
    have "\<forall>k\<in>set Object_prototype_keys. map_of m1 k = None"
      using forEach_callback_lookup [OF False m1] False Cons.prems(2) by auto
    moreover from False Cons.prems(1)
    have "\<exists>c\<in>set cs. department_c c \<in> set Object_prototype_keys"
      by auto
    ultimately have "forEach m1 cs = Inl TypeError"
      by (rule Cons.IH [rotated])
    with m1 show ?thesis by simp
  qed
qed

lemma grouped_throws_iff:
  "grouped localeCompare cs = Inl TypeError \<longleftrightarrow>
     (\<exists>c\<in>set cs. department_c c \<in> set Object_prototype_keys)"
proof
  assume "grouped localeCompare cs = Inl TypeError"
  then show "\<exists>c\<in>set cs. department_c c \<in> set Object_prototype_keys"
    using grouped_partition [of cs localeCompare] by auto
next
  assume "\<exists>c\<in>set cs. department_c c \<in> set Object_prototype_keys"
  then have "forEach [] cs = Inl TypeError"
    by (rule forEach_throws) simp
  then show "grouped localeCompare cs = Inl TypeError"
    by (simp add: grouped_def)
qed

text \<open>
  The example of the specification: three courses of the departments Science, Math and
  Science, with a comparison function that puts Math before Science.
\<close>

lemma grouped_example:
  assumes "department_c c1 = ''Science''" and "department_c c2 = ''Math''"
    and "department_c c3 = ''Science''" and "0 < localeCompare ''Science'' ''Math''"
  shows "grouped localeCompare [c1, c2, c3] = Inr [(''Math'', [c2]), (''Science'', [c1, c3])]"
  using assms
  by (simp add: grouped_def forEach_callback_def get_property_def Object_prototype_keys_def
      push_def Object_entries_def array_index_def is_digit_def array_sort_def)

end
